theory Spec2Isabelle
  imports Complex_Main
begin

section \<open>JavaScript numbers\<close>

text \<open>
  Every number of the chunk code is an IEEE 754 double. A finite double is a rational,
  and the result of an operation is the exact result rounded to the nearest double,
  ties to the even significand, or an infinity when the rounded result is \<open>2^1024\<close> or
  more in magnitude. \<open>Infinity\<close>, \<open>-Infinity\<close> and \<open>NaN\<close> are values of their own. The
  two zeroes of JavaScript are identified (they are \<open>===\<close>-equal); the divisor of the
  one division in the code is an argument the caller passes, a positive zero when zero.
\<close>

datatype jsnum = Num rat | PosInfinity | NegInfinity | NaN

text \<open>Rounding to the nearest integer, a tie to the even one.\<close>

definition roundHalfEven :: "rat \<Rightarrow> int" where
  "roundHalfEven q =
     (let f = \<lfloor>q\<rfloor>; d = q - of_int f
      in if d < 1 / 2 then f
         else if 1 / 2 < d then f + 1
         else if even f then f else f + 1)"

text \<open>
  The exponent of the binade of \<open>r\<close>, searched upwards from \<open>e\<close>: the first exponent
  with \<open>\<bar>r\<bar> < 2^(e + 1)\<close>. From \<open>-1022\<close>, the least exponent of a normal double, it is the
  exponent of \<open>r\<close>, and \<open>-1022\<close> for the subnormal numbers and zero.
\<close>

function binade :: "rat \<Rightarrow> int \<Rightarrow> int" where
  "binade r e = (if \<bar>r\<bar> < 2 powi (e + 1) then e else binade r (e + 1))"
  by pat_completeness auto
termination
proof (relation "measure (\<lambda>(r, e). nat (\<lfloor>\<bar>r\<bar>\<rfloor> + 1 - e))")
  show "wf (measure (\<lambda>(r, e). nat (\<lfloor>\<bar>r\<bar>\<rfloor> + 1 - e)))" by simp
next
  fix r :: rat and e :: int
  assume big: "\<not> \<bar>r\<bar> < 2 powi (e + 1)"
  have "e < \<lfloor>\<bar>r\<bar>\<rfloor> + 1"
  proof (cases "0 \<le> e")
    case False
    have "0 \<le> \<lfloor>\<bar>r\<bar>\<rfloor>" by simp
    with False show ?thesis by linarith
  next
    case True
    have "nat (e + 1) < 2 ^ nat (e + 1)" by (rule less_exp)
    then have "int (nat (e + 1)) < int (2 ^ nat (e + 1))" by (simp only: of_nat_less_iff)
    with True have "e + 1 < 2 ^ nat (e + 1)" by simp
    then have "(of_int (e + 1) :: rat) < of_int (2 ^ nat (e + 1))" by (simp only: of_int_less_iff)
    also have "\<dots> = 2 powi (e + 1)" using True by (simp add: power_int_nonneg_exp)
    also have "\<dots> \<le> \<bar>r\<bar>" using big by simp
    finally have "e + 1 \<le> \<lfloor>\<bar>r\<bar>\<rfloor>" by (simp add: le_floor_iff)
    then show ?thesis by simp
  qed
  then show "((r, e + 1), (r, e)) \<in> measure (\<lambda>(r, e). nat (\<lfloor>\<bar>r\<bar>\<rfloor> + 1 - e))"
    by simp
qed

text \<open>
  The double nearest to \<open>r\<close>, the exponent range taken as unbounded above: a double of
  the binade with exponent \<open>e\<close> is a multiple of \<open>2^(e - 52)\<close>, 53 bits of significand.
\<close>

definition nearestDouble :: "rat \<Rightarrow> rat" where
  "nearestDouble r =
     (let e = binade r (- 1022);
          u = 2 powi (e - 52)
      in of_int (roundHalfEven (r / u)) * u)"

text \<open>The double an exact result is rounded to: an infinity from \<open>2^1024\<close> on.\<close>

definition toDouble :: "rat \<Rightarrow> jsnum" where
  "toDouble r =
     (let v = nearestDouble r
      in if 2 powi 1024 \<le> \<bar>v\<bar> then (if 0 < r then PosInfinity else NegInfinity)
         else Num v)"

text \<open>\<open>a + b\<close>, unary minus and \<open>a - b\<close>.\<close>

fun js_add :: "jsnum \<Rightarrow> jsnum \<Rightarrow> jsnum" where
  "js_add (Num a) (Num b) = toDouble (a + b)"
| "js_add NaN _ = NaN"
| "js_add _ NaN = NaN"
| "js_add PosInfinity NegInfinity = NaN"
| "js_add NegInfinity PosInfinity = NaN"
| "js_add PosInfinity _ = PosInfinity"
| "js_add _ PosInfinity = PosInfinity"
| "js_add NegInfinity _ = NegInfinity"
| "js_add _ NegInfinity = NegInfinity"

fun js_neg :: "jsnum \<Rightarrow> jsnum" where
  "js_neg (Num r) = Num (- r)"
| "js_neg PosInfinity = NegInfinity"
| "js_neg NegInfinity = PosInfinity"
| "js_neg NaN = NaN"

definition js_sub :: "jsnum \<Rightarrow> jsnum \<Rightarrow> jsnum" where
  "js_sub a b = js_add a (js_neg b)"

text \<open>
  \<open>a / b\<close>. A finite number divided by zero is an infinity of its sign, and \<open>NaN\<close>
  when it is zero itself.
\<close>

fun js_div :: "jsnum \<Rightarrow> jsnum \<Rightarrow> jsnum" where
  "js_div (Num a) (Num b) =
     (if b \<noteq> 0 then toDouble (a / b)
      else if 0 < a then PosInfinity
      else if a < 0 then NegInfinity
      else NaN)"
| "js_div NaN _ = NaN"
| "js_div _ NaN = NaN"
| "js_div (Num a) _ = Num 0"
| "js_div PosInfinity (Num b) = (if 0 \<le> b then PosInfinity else NegInfinity)"
| "js_div NegInfinity (Num b) = (if 0 \<le> b then NegInfinity else PosInfinity)"
| "js_div _ _ = NaN"

text \<open>\<open>Math.floor\<close>: the floor of a double is a double.\<close>

fun js_floor :: "jsnum \<Rightarrow> jsnum" where
  "js_floor (Num r) = Num (of_int \<lfloor>r\<rfloor>)"
| "js_floor PosInfinity = PosInfinity"
| "js_floor NegInfinity = NegInfinity"
| "js_floor NaN = NaN"

text \<open>\<open>a < b\<close>: false as soon as one side is \<open>NaN\<close>.\<close>

fun js_lt :: "jsnum \<Rightarrow> jsnum \<Rightarrow> bool" where
  "js_lt (Num a) (Num b) = (a < b)"
| "js_lt NaN _ = False"
| "js_lt _ NaN = False"
| "js_lt _ NegInfinity = False"
| "js_lt PosInfinity _ = False"
| "js_lt NegInfinity _ = True"
| "js_lt _ PosInfinity = True"

text \<open>
  The integers a caller can pass and add without rounding:
  \<open>Number.isSafeInteger\<close>, a magnitude below \<open>2^53\<close>.
\<close>

definition safeInteger :: "int \<Rightarrow> bool" where
  "safeInteger n = (\<bar>n\<bar> < 2 ^ 53)"

section \<open>Coordinates, neurons, errors\<close>

text \<open>
  Modelled from the spec: the class \<open>Vector3Int\<close> (\<open>./vector3Int\<close>) is not part of the
  sources; the spec describes it as an immutable triple with componentwise equality.
  \<open>new Vector3Int(a, b, c)\<close> is the constructor; the fields \<open>x\<close>, \<open>y\<close>, \<open>z\<close> are the
  selectors \<open>vx\<close>, \<open>vy\<close>, \<open>vz\<close>. The component type is \<open>int\<close> for the positions
  the callers pass in and \<open>jsnum\<close> for the coordinates computed by a division.
\<close>

datatype 'a Vector3Int = Vector3Int (vx: 'a) (vy: 'a) (vz: 'a)

text \<open>
  Modelled from the spec: the class \<open>Neuron\<close> is not part of the sources; the spec
  describes it as an entity that owns its world position
  (\<open>getPositionAsVector3Int()\<close>) and a payload (\<open>data\<close>, empty when it is \<open>""\<close>),
  and that is otherwise opaque to the chunk.
\<close>

record Neuron =
  position :: "int Vector3Int"
  data :: string

text \<open>
  What a call can throw: the collision string of \<open>addNeuron\<close>, which names the
  occupied position, and the \<open>TypeError\<close> of reading a property of \<open>undefined\<close>.
\<close>

datatype error = NeuronCollision int int int | TypeError

section \<open>The chunk\<close>

text \<open>
  \<open>neurons\<close> is the object of objects of objects of the constructor, keyed by \<open>x\<close>,
  then \<open>y\<close>, then \<open>z\<close>; \<open>rawNeurons\<close> is the array. The fields \<open>x\<close>, \<open>y\<close>, \<open>z\<close>
  of the chunk are \<open>chunkX\<close>, \<open>chunkY\<close>, \<open>chunkZ\<close>.
\<close>

record NeuralChunk =
  neurons :: "int \<rightharpoonup> (int \<rightharpoonup> (int \<rightharpoonup> Neuron))"
  rawNeurons :: "Neuron list"
  chunkX :: int
  chunkY :: int
  chunkZ :: int

definition newNeuralChunk :: "int \<Rightarrow> int \<Rightarrow> int \<Rightarrow> NeuralChunk" where
  "newNeuralChunk x y z =
     \<lparr>neurons = Map.empty, rawNeurons = [], chunkX = x, chunkY = y, chunkZ = z\<rparr>"

section \<open>Adding and finding neurons\<close>

text \<open>
  \<open>addNeuron\<close> changes the chunk and may throw, and what it changed before the
  \<open>throw\<close> stays changed: the model returns the outcome of the call together with the
  chunk as the call leaves it. The steps are those of the source, in its order: the
  \<open>push\<close>, the two objects created when \<open>x\<close> or \<open>y\<close> is not yet a key, the test
  for a neuron at \<open>z\<close>, the assignment. \<open>atX\<close> is \<open>this.neurons[x]\<close> after the
  first \<open>if\<close> (the empty object when \<open>x\<close> was not a key), \<open>atXY\<close> is
  \<open>this.neurons[x][y]\<close> after the second, and \<open>created\<close> is the chunk with both in
  place. The keys are integers, which JavaScript turns into distinct property names.
\<close>

definition addNeuron :: "Neuron \<Rightarrow> NeuralChunk \<Rightarrow> (error + unit) \<times> NeuralChunk" where
  "addNeuron neuron this =
     (let neuronPosition = position neuron;
          x = vx neuronPosition;
          y = vy neuronPosition;
          z = vz neuronPosition;
          pushed = this\<lparr>rawNeurons := rawNeurons this @ [neuron]\<rparr>;
          atX = (case neurons pushed x of None \<Rightarrow> Map.empty | Some m \<Rightarrow> m);
          atXY = (case atX y of None \<Rightarrow> Map.empty | Some m \<Rightarrow> m);
          created = pushed\<lparr>neurons := (neurons pushed)(x \<mapsto> atX(y \<mapsto> atXY))\<rparr>
      in if atXY z \<noteq> None then (Inl (NeuronCollision x y z), created)
         else (Inr (),
               created\<lparr>neurons := (neurons pushed)(x \<mapsto> atX(y \<mapsto> atXY(z \<mapsto> neuron)))\<rparr>))"

text \<open>
  \<open>getNeuronFromPosition\<close> returns a neuron or \<open>undefined\<close> (\<open>None\<close>); it is given
  the chunk and hands it back, so that what it does to the chunk can be stated.
\<close>

definition getNeuronFromPosition ::
  "int Vector3Int \<Rightarrow> NeuralChunk \<Rightarrow> Neuron option \<times> NeuralChunk" where
  "getNeuronFromPosition pos this =
     (case neurons this (vx pos) of
        None \<Rightarrow> (None, this)
      | Some atX \<Rightarrow>
          (case atX (vy pos) of
             None \<Rightarrow> (None, this)
           | Some atXY \<Rightarrow>
               (case atXY (vz pos) of
                  None \<Rightarrow> (None, this)
                | Some neuron \<Rightarrow> (Some neuron, this))))"

text \<open>
  A caller that adds the neurons of a list one after the other and catches every
  collision: \<open>addNeurons\<close> is the chunk it ends with, \<open>addedNeurons\<close> the neurons whose
  call returned without throwing, in the order of the calls.
\<close>

fun addNeurons :: "Neuron list \<Rightarrow> NeuralChunk \<Rightarrow> NeuralChunk" where
  "addNeurons [] this = this"
| "addNeurons (n # ns) this = addNeurons ns (snd (addNeuron n this))"

fun addedNeurons :: "Neuron list \<Rightarrow> NeuralChunk \<Rightarrow> Neuron list" where
  "addedNeurons [] this = []"
| "addedNeurons (n # ns) this =
     (case fst (addNeuron n this) of
        Inl e \<Rightarrow> addedNeurons ns (snd (addNeuron n this))
      | Inr u \<Rightarrow> n # addedNeurons ns (snd (addNeuron n this)))"

text \<open>The neuron most recently added at a position, among those of a list.\<close>

definition lastAt :: "int Vector3Int \<Rightarrow> Neuron list \<Rightarrow> Neuron option" where
  "lastAt pos ns =
     (case filter (\<lambda>n. position n = pos) ns of [] \<Rightarrow> None | m # ms \<Rightarrow> Some (last (m # ms)))"

text \<open>The neurons the index holds: those some position finds.\<close>

definition indexedNeurons :: "NeuralChunk \<Rightarrow> Neuron set" where
  "indexedNeurons this = {n. \<exists>pos. fst (getNeuronFromPosition pos this) = Some n}"

section \<open>Empty neurons\<close>

text \<open>
  The loop of \<open>hasEmptyNeurons\<close> compares the index with the array itself,
  \<open>i < this.rawNeurons\<close>, and JavaScript turns the array into a number through its
  string: the strings of the elements joined by commas.
\<close>

text \<open>
  Modelled from the spec: the class \<open>Neuron\<close> is not part of the sources, and with it
  the string of a neuron. The spec has a neuron opaque but for its position and its
  payload, so its string is the default \<open>[object Object]\<close>. The empty array is the
  string \<open>""\<close>, the number \<open>0\<close>; a string with \<open>[object Object]\<close> in it reads as
  no number, so a non-empty array is \<open>NaN\<close>.
\<close>

definition arrayToNumber :: "Neuron list \<Rightarrow> jsnum" where
  "arrayToNumber a = (if a = [] then Num 0 else NaN)"

text \<open>
  The loop from index \<open>i\<close> on. Reading \<open>data\<close> of an element beyond the end of the
  array is the \<open>TypeError\<close> of a property of \<open>undefined\<close>.
\<close>

function hasEmptyNeuronsFrom :: "Neuron list \<Rightarrow> nat \<Rightarrow> error + bool" where
  "hasEmptyNeuronsFrom raw i =
     (if js_lt (Num (of_nat i)) (arrayToNumber raw) then
        (if i < length raw then
           (if data (raw ! i) = [] then Inr True else hasEmptyNeuronsFrom raw (Suc i))
         else Inl TypeError)
      else Inr False)"
  by pat_completeness auto
termination
  by (relation "measure (\<lambda>(raw, i). length raw - i)") auto

definition hasEmptyNeurons :: "NeuralChunk \<Rightarrow> error + bool" where
  "hasEmptyNeurons this = hasEmptyNeuronsFrom (rawNeurons this) 0"

text \<open>The scan the documentation of the method describes: is some stored neuron empty?\<close>

definition someNeuronEmpty :: "NeuralChunk \<Rightarrow> bool" where
  "someNeuronEmpty this = list_ex (\<lambda>n. data n = []) (rawNeurons this)"

section \<open>World position to chunk position\<close>

text \<open>
  The coordinates of the point, the chunk size and the world size are the integers the
  caller passes, as doubles; the sum, the quotient and the floor are those of the
  source.
\<close>

definition getChunkPositionFromWorldPosition ::
  "int Vector3Int \<Rightarrow> int \<Rightarrow> int \<Rightarrow> error + jsnum Vector3Int" where
  "getChunkPositionFromWorldPosition v3 chunkSize worldSize =
     (let chunkXCoordinate =
            js_floor (js_div (js_add (Num (of_int (vx v3))) (Num (of_int worldSize)))
                             (Num (of_int chunkSize)));
          chunkYCoordinate =
            js_floor (js_div (js_add (Num (of_int (vy v3))) (Num (of_int worldSize)))
                             (Num (of_int chunkSize)));
          chunkZCoordinate =
            js_floor (js_div (js_add (Num (of_int (vz v3))) (Num (of_int worldSize)))
                             (Num (of_int chunkSize)))
      in Inr (Vector3Int chunkXCoordinate chunkYCoordinate chunkZCoordinate))"

section \<open>Boundary proximity\<close>

text \<open>
  The body of \<open>getChunkPositionsFromPointEdgeCases\<close>, with the source's names. The
  three \<open>floatingChunkCoordinateOf\<close> values are computed and never read; the decimals
  are taken from the \<open>PositionInChunkWorldCoordinates\<close> values. The threshold is a
  finite number. Every \<open>push\<close> appends to the result, in the order of the source.
\<close>

definition getChunkPositionsFromPointEdgeCases ::
  "int Vector3Int \<Rightarrow> int \<Rightarrow> int \<Rightarrow> rat \<Rightarrow> error + jsnum Vector3Int list" where
  "getChunkPositionsFromPointEdgeCases point worldSize chunkSize edgeDistanceThreshold =
     (case getChunkPositionFromWorldPosition point chunkSize worldSize of
        Inl e \<Rightarrow> Inl e
      | Inr thisChunkPosition \<Rightarrow>
     (let worldSizeOffset = Num (of_int worldSize);
          cx = vx thisChunkPosition; cy = vy thisChunkPosition; cz = vz thisChunkPosition;
          xPositionInChunkWorldCoordinates = js_add (Num (of_int (vx point))) worldSizeOffset;
          floatingChunkCoordinateOfX =
            js_div xPositionInChunkWorldCoordinates (Num (of_int chunkSize));
          xCoordinateChunkDecimal =
            js_sub xPositionInChunkWorldCoordinates (js_floor xPositionInChunkWorldCoordinates);
          yPositionInChunkWorldCoordinates = js_add (Num (of_int (vy point))) worldSizeOffset;
          floatingChunkCoordinateOfY =
            js_div yPositionInChunkWorldCoordinates (Num (of_int chunkSize));
          yCoordinateChunkDecimal =
            js_sub yPositionInChunkWorldCoordinates (js_floor yPositionInChunkWorldCoordinates);
          zPositionInChunkWorldCoordinates = js_add (Num (of_int (vz point))) worldSizeOffset;
          floatingChunkCoordinateOfZ =
            js_div zPositionInChunkWorldCoordinates (Num (of_int chunkSize));
          zCoordinateChunkDecimal =
            js_sub zPositionInChunkWorldCoordinates (js_floor zPositionInChunkWorldCoordinates);
          one = Num 1;
          threshold = Num edgeDistanceThreshold;
          isXNearLeftBoundary = js_lt xCoordinateChunkDecimal threshold;
          isXNearRightBoundary = js_lt (js_sub one xCoordinateChunkDecimal) threshold;
          isYNearBottomBoundary = js_lt yCoordinateChunkDecimal threshold;
          isYNearTopBoundary = js_lt (js_sub one yCoordinateChunkDecimal) threshold;
          isZNearBackBoundary = js_lt zCoordinateChunkDecimal threshold;
          isZNearFrontBoundary = js_lt (js_sub one zCoordinateChunkDecimal) threshold;
          leftOrRight =
            (if isXNearLeftBoundary then
               [Vector3Int (js_sub cx one) cy cz] @
               (if isYNearTopBoundary then [Vector3Int (js_sub cx one) (js_add cy one) cz]
                else if isYNearBottomBoundary then [Vector3Int (js_sub cx one) (js_sub cy one) cz]
                else [])
             else if isXNearRightBoundary then
               [Vector3Int (js_add cx one) cy cz] @
               (if isYNearTopBoundary then [Vector3Int (js_add cx one) (js_add cy one) cz]
                else if isYNearBottomBoundary then [Vector3Int (js_add cx one) (js_sub cy one) cz]
                else [])
             else []);
          topOrBottom =
            (if isYNearBottomBoundary then [Vector3Int cx (js_sub cy one) cz]
             else if isYNearTopBoundary then [Vector3Int cx (js_add cy one) cz]
             else []);
          frontOrBack =
            (if isZNearBackBoundary then
               [Vector3Int cx cy (js_sub cz one)] @
               (if isYNearTopBoundary then [Vector3Int cx (js_add cy one) (js_sub cz one)]
                else if isYNearBottomBoundary then [Vector3Int cx (js_sub cy one) (js_sub cz one)]
                else [])
             else if isZNearFrontBoundary then
               [Vector3Int cx cy (js_add cz one)] @
               (if isYNearTopBoundary then [Vector3Int cx (js_add cy one) (js_add cz one)]
                else if isYNearBottomBoundary then [Vector3Int cx (js_sub cy one) (js_add cz one)]
                else [])
             else []);
          rightFront =
            (if isXNearRightBoundary \<and> isZNearFrontBoundary then
               [Vector3Int (js_add cx one) cy (js_add cz one)] @
               (if isYNearTopBoundary
                then [Vector3Int (js_add cx one) (js_add cy one) (js_add cz one)]
                else if isYNearBottomBoundary
                then [Vector3Int (js_add cx one) (js_sub cy one) (js_add cz one)]
                else [])
             else []);
          leftFront =
            (if isXNearLeftBoundary \<and> isZNearFrontBoundary then
               [Vector3Int (js_sub cx one) cy (js_add cz one)] @
               (if isYNearTopBoundary
                then [Vector3Int (js_sub cx one) (js_add cy one) (js_add cz one)]
                else if isYNearBottomBoundary
                then [Vector3Int (js_sub cx one) (js_sub cy one) (js_add cz one)]
                else [])
             else []);
          rightBack =
            (if isXNearRightBoundary \<and> isZNearBackBoundary then
               [Vector3Int (js_add cx one) cy (js_sub cz one)] @
               (if isYNearTopBoundary
                then [Vector3Int (js_add cx one) (js_add cy one) (js_sub cz one)]
                else if isYNearBottomBoundary
                then [Vector3Int (js_add cx one) (js_sub cy one) (js_sub cz one)]
                else [])
             else []);
          leftBack =
            (if isXNearLeftBoundary \<and> isZNearBackBoundary then
               [Vector3Int (js_sub cx one) cy (js_sub cz one)] @
               (if isYNearTopBoundary
                then [Vector3Int (js_sub cx one) (js_add cy one) (js_sub cz one)]
                else if isYNearBottomBoundary
                then [Vector3Int (js_sub cx one) (js_sub cy one) (js_sub cz one)]
                else [])
             else [])
      in Inr (leftOrRight @ topOrBottom @ frontOrBack @
              rightFront @ leftFront @ rightBack @ leftBack)))"

section \<open>The neighbours of a chunk\<close>

text \<open>
  The 26 \<open>push\<close> calls of \<open>getAdjacentChunkPositions\<close>, in the order of the source.
  The second argument of every \<open>new Vector3Int\<close> there is built from \<open>this.x\<close>.
  The coordinates of a chunk are safe integers, for which \<open>x + 1\<close> and \<open>x - 1\<close> are
  exact.
\<close>

definition getAdjacentChunkPositions :: "NeuralChunk \<Rightarrow> int Vector3Int list" where
  "getAdjacentChunkPositions this =
     (let x = chunkX this; z = chunkZ this in
      [Vector3Int (x + 1) (x + 1) (z + 1),
       Vector3Int (x + 1) (x + 1) (z - 1),
       Vector3Int (x - 1) (x + 1) (z + 1),
       Vector3Int (x - 1) (x + 1) (z - 1),
       Vector3Int (x + 1) (x - 1) (z + 1),
       Vector3Int (x + 1) (x - 1) (z - 1),
       Vector3Int (x - 1) (x - 1) (z + 1),
       Vector3Int (x - 1) (x - 1) (z - 1),
       Vector3Int x (x + 1) z,
       Vector3Int x (x - 1) z,
       Vector3Int (x + 1) x z,
       Vector3Int (x - 1) x z,
       Vector3Int x x (z + 1),
       Vector3Int x x (z - 1),
       Vector3Int (x + 1) (x + 1) z,
       Vector3Int (x + 1) (x - 1) z,
       Vector3Int (x - 1) (x + 1) z,
       Vector3Int (x - 1) (x - 1) z,
       Vector3Int x (x + 1) (z + 1),
       Vector3Int x (x - 1) (z + 1),
       Vector3Int x (x + 1) (z - 1),
       Vector3Int x (x - 1) (z - 1),
       Vector3Int (x + 1) x (z + 1),
       Vector3Int (x + 1) x (z - 1),
       Vector3Int (x - 1) x (z + 1),
       Vector3Int (x - 1) x (z - 1)])"

text \<open>
  The neighbourhood the documentation of the method describes ("all chunks cubed around
  this chunk"): the chunk's own coordinate shifted by every offset of \<open>{-1, 0, 1}\<close> on
  each axis, the zero offset left out.
\<close>

definition isNeighbourOf :: "int Vector3Int \<Rightarrow> NeuralChunk \<Rightarrow> bool" where
  "isNeighbourOf d c =
     (\<bar>vx d - chunkX c\<bar> \<le> 1 \<and> \<bar>vy d - chunkY c\<bar> \<le> 1 \<and> \<bar>vz d - chunkZ c\<bar> \<le> 1 \<and>
      d \<noteq> Vector3Int (chunkX c) (chunkY c) (chunkZ c))"

section \<open>Rounding to a double\<close>

text \<open>
  The binade found for \<open>r\<close> holds it: \<open>\<bar>r\<bar>\<close> is below \<open>2^(e + 1)\<close>, and at least
  \<open>2^e\<close> unless the search stopped where it began. Rounding moves an exact result by
  at most half the distance between two doubles of its binade. An integer of magnitude
  up to \<open>2^53\<close> is a double, and so is the floor of the quotient of two safe integers,
  taken from the rounded quotient. Any integer is rounded to an integer or to an
  infinity.
\<close>

declare binade.simps [simp del]

lemma binade_ge: "e0 \<le> binade r e0"
proof (induction r e0 rule: binade.induct)
  case (1 r e)
  show ?case
  proof (cases "\<bar>r\<bar> < 2 powi (e + 1)")
    case True
    then show ?thesis by (simp add: binade.simps [of r e])
  next
    case False
    with 1 have "e + 1 \<le> binade r (e + 1)" by simp
    with False show ?thesis by (simp add: binade.simps [of r e])
  qed
qed

lemma binade_upper: "\<bar>r\<bar> < 2 powi (binade r e0 + 1)"
proof (induction r e0 rule: binade.induct)
  case (1 r e)
  show ?case
  proof (cases "\<bar>r\<bar> < 2 powi (e + 1)")
    case True
    then show ?thesis by (simp add: binade.simps [of r e])
  next
    case False
    with 1 show ?thesis by (simp add: binade.simps [of r e])
  qed
qed

lemma binade_lower: "e0 < binade r e0 \<Longrightarrow> 2 powi (binade r e0) \<le> \<bar>r\<bar>"
proof (induction r e0 rule: binade.induct)
  case (1 r e)
  show ?case
  proof (cases "\<bar>r\<bar> < 2 powi (e + 1)")
    case True
    with "1.prems" show ?thesis by (simp add: binade.simps [of r e])
  next
    case False
    then have eq: "binade r e = binade r (e + 1)" by (simp add: binade.simps [of r e])
    show ?thesis
    proof (cases "e + 1 < binade r (e + 1)")
      case True
      with 1 False eq show ?thesis by simp
    next
      case False
      with binade_ge [of "e + 1" r] have "binade r (e + 1) = e + 1" by simp
      with \<open>\<not> \<bar>r\<bar> < 2 powi (e + 1)\<close> eq show ?thesis by simp
    qed
  qed
qed

lemma binade_eq:
  assumes "e0 \<le> e" and "\<bar>r\<bar> < 2 powi (e + 1)" and "e0 < e \<Longrightarrow> 2 powi e \<le> \<bar>r\<bar>"
  shows "binade r e0 = e"
proof (rule ccontr)
  assume ne: "binade r e0 \<noteq> e"
  let ?b = "binade r e0"
  show False
  proof (cases "?b < e")
    case True
    then have "e0 < e" using binade_ge [of e0 r] by simp
    then have "(2::rat) powi e \<le> \<bar>r\<bar>" by (rule assms(3))
    moreover have "\<bar>r\<bar> < 2 powi (?b + 1)" by (rule binade_upper)
    moreover have "(2::rat) powi (?b + 1) \<le> 2 powi e"
      using True by (intro power_int_increasing) simp_all
    ultimately show False by simp
  next
    case False
    with ne have gt: "e < ?b" by simp
    with assms(1) have "e0 < ?b" by simp
    then have "(2::rat) powi ?b \<le> \<bar>r\<bar>" by (rule binade_lower)
    moreover have "(2::rat) powi (e + 1) \<le> 2 powi ?b"
      using gt by (intro power_int_increasing) simp_all
    ultimately show False using assms(2) by simp
  qed
qed

lemma roundHalfEven_of_int: "roundHalfEven (of_int n) = n"
  by (simp add: roundHalfEven_def)

lemma roundHalfEven_error: "\<bar>of_int (roundHalfEven q) - q\<bar> \<le> 1 / 2"
proof -
  have "of_int \<lfloor>q\<rfloor> \<le> q" "q < of_int \<lfloor>q\<rfloor> + 1" by linarith+
  then show ?thesis
    by (auto simp: roundHalfEven_def Let_def abs_le_iff)
qed

lemma nearestDouble_exact:
  assumes "r / 2 powi (binade r (- 1022) - 52) = of_int m"
  shows "nearestDouble r = r"
proof -
  let ?u = "(2::rat) powi (binade r (- 1022) - 52)"
  have u: "?u \<noteq> 0" by simp
  have "of_int (roundHalfEven (r / ?u)) * ?u = of_int m * ?u"
    by (simp only: assms roundHalfEven_of_int)
  also have "\<dots> = r" using assms u by (simp add: field_simps)
  finally show ?thesis by (simp add: nearestDouble_def Let_def)
qed

lemma nearestDouble_error:
  "\<bar>nearestDouble r - r\<bar> \<le> 2 powi (binade r (- 1022) - 53)"
proof -
  let ?u = "(2::rat) powi (binade r (- 1022) - 52)"
  let ?v = "nearestDouble r"
  have u: "0 < ?u" by simp
  have v: "?v = of_int (roundHalfEven (r / ?u)) * ?u"
    by (simp add: nearestDouble_def Let_def)
  have "?v - r = (of_int (roundHalfEven (r / ?u)) - r / ?u) * ?u"
    using u by (simp add: v field_simps)
  then have "\<bar>?v - r\<bar> = \<bar>of_int (roundHalfEven (r / ?u)) - r / ?u\<bar> * ?u"
    using u by (simp add: abs_mult)
  also have "\<dots> \<le> (1 / 2) * ?u"
    using u roundHalfEven_error [of "r / ?u"] by (intro mult_right_mono) simp_all
  also have "\<dots> = 2 powi (binade r (- 1022) - 53)"
    by (simp add: power_int_diff)
  finally show ?thesis .
qed

lemma toDouble_finite:
  "\<bar>nearestDouble r\<bar> < 2 powi 1024 \<Longrightarrow> toDouble r = Num (nearestDouble r)"
  by (simp add: toDouble_def Let_def)

lemma nearestDouble_of_int:
  assumes "\<bar>a\<bar> \<le> 2 ^ 53"
  shows "nearestDouble (of_int a) = of_int a"
proof -
  let ?r = "of_int a :: rat"
  let ?e = "binade ?r (- 1022)"
  let ?u = "(2::rat) powi (?e - 52)"
  have ra: "\<bar>?r\<bar> \<le> 2 ^ 53"
  proof -
    have "(of_int \<bar>a\<bar> :: rat) \<le> of_int (2 ^ 53)" using assms by (simp only: of_int_le_iff)
    then show ?thesis by simp
  qed
  have "\<exists>m. ?r / ?u = of_int m"
  proof (cases "?e \<le> 52")
    case True
    have "?u = 1 / 2 powi (52 - ?e)"
      by (simp add: power_int_diff)
    also have "\<dots> = 1 / 2 ^ nat (52 - ?e)"
      using True by (simp add: power_int_nonneg_exp)
    finally have "?r / ?u = of_int (a * 2 ^ nat (52 - ?e))" by simp
    then show ?thesis by blast
  next
    case False
    then have "- 1022 < ?e" by simp
    then have low: "2 powi ?e \<le> \<bar>?r\<bar>" by (rule binade_lower)
    with ra have "(2::rat) powi ?e \<le> 2 powi 53" by simp
    then have "?e \<le> 53" by (rule power_int_le_imp_le_exp [rotated]) simp_all
    with False have e: "?e = 53" by simp
    with low ra have "\<bar>?r\<bar> = 2 ^ 53" by simp
    then have "?r = 2 ^ 53 \<or> ?r = - (2 ^ 53)" by (simp add: abs_if split: if_splits)
    then have "?r / ?u = of_int (2 ^ 52) \<or> ?r / ?u = of_int (- (2 ^ 52))"
      unfolding e by auto
    then show ?thesis by blast
  qed
  then obtain m where "?r / ?u = of_int m" ..
  then show ?thesis by (rule nearestDouble_exact)
qed

lemma toDouble_of_int:
  assumes "\<bar>a\<bar> \<le> 2 ^ 53"
  shows "toDouble (of_int a) = Num (of_int a)"
proof -
  have "(of_int \<bar>a\<bar> :: rat) \<le> of_int (2 ^ 53)" using assms by (simp only: of_int_le_iff)
  then have "\<bar>of_int a :: rat\<bar> \<le> 2 ^ 53" by simp
  also have "(2::rat) ^ 53 < 2 ^ 1024" by (rule power_strict_increasing) simp_all
  finally have "\<bar>of_int a :: rat\<bar> < 2 powi 1024" by simp
  then show ?thesis
    by (simp add: toDouble_finite nearestDouble_of_int [OF assms])
qed

lemma toDouble_of_int_cases:
  "(\<exists>j. toDouble (of_int i) = Num (of_int j))
   \<or> toDouble (of_int i) = PosInfinity \<or> toDouble (of_int i) = NegInfinity"
proof (cases "binade (of_int i) (- 1022) \<le> 52")
  case True
  let ?e = "binade (of_int i :: rat) (- 1022)"
  have "\<bar>of_int i :: rat\<bar> < 2 powi (?e + 1)" by (rule binade_upper)
  also have "\<dots> \<le> 2 powi 53" using True by (intro power_int_increasing) simp_all
  finally have "(of_int \<bar>i\<bar> :: rat) < of_int (2 ^ 53)" by simp
  then have "\<bar>i\<bar> < 2 ^ 53" by (simp only: of_int_less_iff)
  then have "toDouble (of_int i) = Num (of_int i)" by (intro toDouble_of_int) simp
  then show ?thesis by blast
next
  case False
  let ?e = "binade (of_int i :: rat) (- 1022)"
  let ?u = "(2::rat) powi (?e - 52)"
  from False have "?u = 2 ^ nat (?e - 52)" by (simp add: power_int_nonneg_exp)
  then have "of_int (roundHalfEven (of_int i / ?u)) * ?u
               = of_int (roundHalfEven (of_int i / ?u) * 2 ^ nat (?e - 52))"
    by simp
  then have "\<exists>j. nearestDouble (of_int i) = of_int j"
    unfolding nearestDouble_def Let_def by blast
  then show ?thesis
    by (auto simp: toDouble_def Let_def)
qed

lemma int_quotient_parts:
  assumes "b \<noteq> 0" and "\<not> b dvd a"
  shows "(of_int (a div b) :: rat) + 1 / of_int \<bar>b\<bar> \<le> of_int a / of_int b"
    and "(of_int a :: rat) / of_int b + 1 / of_int \<bar>b\<bar> \<le> of_int (a div b) + 1"
proof -
  let ?m = "\<bar>a mod b\<bar>"
  let ?B = "\<bar>b\<bar>"
  have B: "0 < ?B" using assms(1) by simp
  have m1: "1 \<le> ?m" using assms(2) by (simp add: dvd_eq_mod_eq_0)
  have m2: "?m \<le> ?B - 1" using abs_mod_less [OF assms(1), of a] by simp
  have "(of_int (b * (a div b) + a mod b) :: rat) = of_int a" by (simp only: mult_div_mod_eq)
  then have "(of_int a :: rat) = of_int b * of_int (a div b) + of_int (a mod b)"
    by (simp only: of_int_add of_int_mult)
  then have "(of_int a :: rat) / of_int b =
               (of_int b * of_int (a div b) + of_int (a mod b)) / of_int b"
    by (simp only:)
  also have "\<dots> = of_int (a div b) + of_int (a mod b) / of_int b"
    using assms(1) by (simp add: field_simps)
  finally have split:
    "(of_int a :: rat) / of_int b = of_int (a div b) + of_int (a mod b) / of_int b" .
  have frac: "(of_int (a mod b) :: rat) / of_int b = of_int ?m / of_int ?B"
  proof (cases "0 < b")
    case True
    then have "0 \<le> a mod b" by simp
    with True show ?thesis by simp
  next
    case False
    with assms(1) have neg: "b < 0" by simp
    then have "a mod b \<le> 0" by simp
    with neg show ?thesis by simp
  qed
  have Br: "(0::rat) < of_int ?B" using B by (simp only: of_int_0_less_iff)
  then have Br0: "(0::rat) \<le> of_int ?B" by (rule less_imp_le)
  have "(1::rat) \<le> of_int ?m" using m1 by (simp only: of_int_1_le_iff)
  then have lo: "(1::rat) / of_int ?B \<le> of_int ?m / of_int ?B"
    using Br0 by (rule divide_right_mono)
  have "(of_int ?m :: rat) \<le> of_int (?B - 1)" using m2 by (simp only: of_int_le_iff)
  then have "(of_int ?m :: rat) / of_int ?B \<le> of_int (?B - 1) / of_int ?B"
    using Br0 by (rule divide_right_mono)
  also have "\<dots> = 1 - 1 / of_int ?B" using Br by (simp add: field_simps)
  finally have hi: "(of_int ?m :: rat) / of_int ?B + 1 / of_int ?B \<le> 1" by simp
  show "(of_int (a div b) :: rat) + 1 / of_int \<bar>b\<bar> \<le> of_int a / of_int b"
    using lo by (simp only: split frac)
  show "(of_int a :: rat) / of_int b + 1 / of_int \<bar>b\<bar> \<le> of_int (a div b) + 1"
    using hi by (simp only: split frac add.assoc)
qed

lemma abs_div_le_dividend:
  fixes a b :: int
  assumes "b dvd a" and "b \<noteq> 0"
  shows "\<bar>a div b\<bar> \<le> \<bar>a\<bar>"
proof -
  from assms(1) have "a = b * (a div b)" by simp
  then have "\<bar>a\<bar> = \<bar>b\<bar> * \<bar>a div b\<bar>" by (simp only: abs_mult [symmetric])
  moreover have "1 \<le> \<bar>b\<bar>" using assms(2) by simp
  ultimately show ?thesis by (metis abs_ge_zero mult_le_cancel_right1 mult.commute mult_right_mono mult_1)
qed

lemma half_ulp_below:
  assumes "\<bar>a\<bar> < 2 ^ 53" and "b \<noteq> 0" and "\<bar>b\<bar> < 2 ^ 53"
  shows "(2::rat) powi (binade (of_int a / of_int b) (- 1022) - 53) < 1 / of_int \<bar>b\<bar>"
proof -
  let ?r = "of_int a / of_int b :: rat"
  let ?e = "binade ?r (- 1022)"
  let ?B = "of_int \<bar>b\<bar> :: rat"
  have B: "0 < ?B" using assms(2) by simp
  have "?B < of_int (2 ^ 53)" using assms(3) by (simp only: of_int_less_iff)
  then have B53: "?B < 2 powi 53" by simp
  have "(of_int \<bar>a\<bar> :: rat) < of_int (2 ^ 53)" using assms(1) by (simp only: of_int_less_iff)
  then have A53: "(of_int \<bar>a\<bar> :: rat) < 2 powi 53" by simp
  have "(2::rat) powi (?e - 53) * ?B < 1"
  proof (cases "?e = - 1022")
    case True
    have "(2::rat) powi (?e - 53) * ?B < 2 powi (?e - 53) * 2 powi 53"
      using B53 by (intro mult_strict_left_mono) simp_all
    also have "\<dots> = 2 powi ?e" by (simp add: power_int_diff)
    also have "\<dots> \<le> 2 powi 0" unfolding True by (intro power_int_increasing) simp_all
    finally show ?thesis by simp
  next
    case False
    with binade_ge [of "- 1022" ?r] have "- 1022 < ?e" by simp
    then have "2 powi ?e \<le> \<bar>?r\<bar>" by (rule binade_lower)
    also have "\<bar>?r\<bar> = of_int \<bar>a\<bar> / ?B" by simp
    finally have "2 powi ?e * ?B \<le> of_int \<bar>a\<bar>" using B by (simp add: field_simps)
    with A53 have "2 powi ?e * ?B < 2 powi 53" by simp
    then have "2 powi ?e * ?B / 2 powi 53 < 1" by simp
    then show ?thesis by (simp add: power_int_diff)
  qed
  then show ?thesis using B by (simp add: field_simps)
qed

lemma toDouble_quotient_floor:
  assumes "\<bar>a\<bar> < 2 ^ 53" and "b \<noteq> 0" and "\<bar>b\<bar> < 2 ^ 53"
  shows "\<exists>q. toDouble (of_int a / of_int b) = Num q \<and> \<lfloor>q\<rfloor> = a div b"
proof (cases "b dvd a")
  case True
  then have "a = b * (a div b)" by simp
  then have "(of_int a :: rat) = of_int (b * (a div b))" by (simp only:)
  then have r: "(of_int a :: rat) / of_int b = of_int (a div b)"
    using assms(2) by (simp only: of_int_mult) simp
  have "\<bar>a div b\<bar> \<le> \<bar>a\<bar>" using True assms(2) by (rule abs_div_le_dividend)
  with assms(1) have "\<bar>a div b\<bar> \<le> 2 ^ 53" by simp
  then have "toDouble (of_int (a div b)) = Num (of_int (a div b))" by (rule toDouble_of_int)
  then show ?thesis by (simp add: r)
next
  case False
  let ?r = "of_int a / of_int b :: rat"
  let ?n = "a div b"
  let ?v = "nearestDouble ?r"
  let ?h = "(2::rat) powi (binade ?r (- 1022) - 53)"
  have lo: "of_int ?n + 1 / of_int \<bar>b\<bar> \<le> ?r"
    and hi: "?r + 1 / of_int \<bar>b\<bar> \<le> of_int ?n + 1"
    using int_quotient_parts [OF assms(2) False] by simp_all
  have h: "?h < 1 / of_int \<bar>b\<bar>" using assms by (rule half_ulp_below)
  have err: "\<bar>?v - ?r\<bar> \<le> ?h" by (rule nearestDouble_error)
  from lo hi h err have between: "of_int ?n < ?v" "?v < of_int ?n + 1"
    by (simp_all add: abs_le_iff)
  then have fl: "\<lfloor>?v\<rfloor> = ?n" by (simp add: floor_unique)
  have B1: "(1::rat) \<le> of_int \<bar>b\<bar>" using assms(2) by (simp only: of_int_1_le_iff)
  have "(of_int \<bar>a\<bar> :: rat) < of_int (2 ^ 53)" using assms(1) by (simp only: of_int_less_iff)
  then have A53: "(of_int \<bar>a\<bar> :: rat) < 2 ^ 53" by simp
  have "\<bar>?r\<bar> = of_int \<bar>a\<bar> / of_int \<bar>b\<bar>" by simp
  also have "\<dots> \<le> of_int \<bar>a\<bar> / 1" using B1 by (intro divide_left_mono) simp_all
  finally have "\<bar>?r\<bar> < 2 ^ 53" using A53 by simp
  then have r53: "?r < 2 ^ 53" "- (2 ^ 53) < ?r" by (simp_all only: abs_less_iff minus_less_iff)
  have "0 \<le> 1 / (of_int \<bar>b\<bar> :: rat)" using B1 by simp
  with lo hi have "of_int ?n \<le> ?r" "?r \<le> of_int ?n + 1" by linarith+
  with between r53 have "?v < 2 ^ 53 + 1" "- (2 ^ 53 + 1) < ?v" by linarith+
  then have "\<bar>?v\<bar> < 2 ^ 53 + 1" by (simp only: abs_less_iff minus_less_iff)
  also have "(2::rat) ^ 53 + 1 \<le> 2 ^ 53 + 2 ^ 53" by simp
  also have "\<dots> = 2 ^ 54" by simp
  also have "(2::rat) ^ 54 < 2 ^ 1024" by (rule power_strict_increasing) simp_all
  finally have "\<bar>?v\<bar> < 2 powi 1024" by simp
  then have "toDouble ?r = Num ?v" by (rule toDouble_finite)
  with fl show ?thesis by blast
qed

lemma toDouble_0: "toDouble 0 = Num 0"
  using toDouble_of_int [of 0] by simp

lemma toDouble_1: "toDouble 1 = Num 1"
  using toDouble_of_int [of 1] by simp

lemma js_add_int:
  "\<bar>a + b\<bar> \<le> 2 ^ 53 \<Longrightarrow>
   js_add (Num (of_int a)) (Num (of_int b)) = Num (of_int (a + b))"
  using toDouble_of_int [of "a + b"] by simp

lemma js_sub_int:
  "\<bar>a - b\<bar> \<le> 2 ^ 53 \<Longrightarrow>
   js_sub (Num (of_int a)) (Num (of_int b)) = Num (of_int (a - b))"
  using toDouble_of_int [of "a - b"] by (simp add: js_sub_def)

lemma js_add_int_cases:
  "(\<exists>j. js_add (Num (of_int a)) (Num (of_int b)) = Num (of_int j))
   \<or> js_add (Num (of_int a)) (Num (of_int b)) = PosInfinity
   \<or> js_add (Num (of_int a)) (Num (of_int b)) = NegInfinity"
  using toDouble_of_int_cases [of "a + b"] by simp

lemma decimal_of_int: "js_sub (Num (of_int j)) (js_floor (Num (of_int j))) = Num 0"
  by (simp add: js_sub_def toDouble_0)

lemma decimal_cases:
  "js_sub (js_add (Num (of_int a)) (Num (of_int b)))
          (js_floor (js_add (Num (of_int a)) (Num (of_int b)))) = Num 0
   \<or> js_sub (js_add (Num (of_int a)) (Num (of_int b)))
             (js_floor (js_add (Num (of_int a)) (Num (of_int b)))) = NaN"
proof -
  consider j where "js_add (Num (of_int a)) (Num (of_int b)) = Num (of_int j)"
    | "js_add (Num (of_int a)) (Num (of_int b)) = PosInfinity"
    | "js_add (Num (of_int a)) (Num (of_int b)) = NegInfinity"
    using js_add_int_cases [of a b] by blast
  then show ?thesis
  proof cases
    case 1
    then show ?thesis by (simp only: decimal_of_int) simp
  next
    case 2
    then show ?thesis by (simp only: js_sub_def js_floor.simps js_neg.simps js_add.simps) simp
  next
    case 3
    then show ?thesis by (simp only: js_sub_def js_floor.simps js_neg.simps js_add.simps) simp
  qed
qed

lemma one_minus_decimal:
  "js_sub (Num 1) (Num 0) = Num 1" "js_sub (Num 1) NaN = NaN"
  by (simp_all add: js_sub_def toDouble_1)

lemma chunk_axis:
  assumes "\<bar>a\<bar> < 2 ^ 53" and "b \<noteq> 0" and "\<bar>b\<bar> < 2 ^ 53"
  shows "js_floor (js_div (Num (of_int a)) (Num (of_int b))) = Num (of_int (a div b))"
proof -
  from assms obtain q where "toDouble (of_int a / of_int b) = Num q" and "\<lfloor>q\<rfloor> = a div b"
    using toDouble_quotient_floor by blast
  with assms(2) show ?thesis by simp
qed


lemma chunk_axis_sum:
  assumes "safeInteger (a + w)" and "c \<noteq> 0" and "safeInteger c"
  shows "js_floor (js_div (js_add (Num (of_int a)) (Num (of_int w))) (Num (of_int c))) =
           Num (of_int ((a + w) div c))"
proof -
  from assms(1) have "js_add (Num (of_int a)) (Num (of_int w)) = Num (of_int (a + w))"
    by (intro js_add_int) (simp add: safeInteger_def)
  moreover from assms have
    "js_floor (js_div (Num (of_int (a + w))) (Num (of_int c))) = Num (of_int ((a + w) div c))"
    by (intro chunk_axis) (simp_all add: safeInteger_def)
  ultimately show ?thesis by (simp only:)
qed

lemma toDouble_numeral:
  "(numeral n :: int) \<le> 2 ^ 53 \<Longrightarrow> toDouble (numeral n) = Num (numeral n)"
  using toDouble_of_int [of "numeral n"] by simp

lemma toDouble_neg_numeral:
  "(numeral n :: int) \<le> 2 ^ 53 \<Longrightarrow> toDouble (- numeral n) = Num (- numeral n)"
  using toDouble_of_int [of "- numeral n"] by simp

lemma toDouble_minus_1: "toDouble (- 1) = Num (- 1)"
  using toDouble_of_int [of "- 1"] by simp

lemmas toDouble_small = toDouble_0 toDouble_1 toDouble_minus_1 toDouble_numeral toDouble_neg_numeral

section \<open>Arithmetic of the chunk coordinate\<close>

text \<open>
  Safe integers whose sum is safe are added without rounding, and the rounded quotient
  of two safe integers has the floor of the exact quotient: a quotient that is not an
  integer is at least \<open>1 / \<bar>b\<bar>\<close> away from the integers on either side, which is
  more than half the distance between the doubles around it.
\<close>

lemma chunkPosition_safe:
  assumes "safeInteger (px + worldSize)" and "safeInteger (py + worldSize)"
    and "safeInteger (pz + worldSize)" and "chunkSize \<noteq> 0" and "safeInteger chunkSize"
  shows "getChunkPositionFromWorldPosition (Vector3Int px py pz) chunkSize worldSize =
           Inr (Vector3Int (Num (of_int ((px + worldSize) div chunkSize)))
                           (Num (of_int ((py + worldSize) div chunkSize)))
                           (Num (of_int ((pz + worldSize) div chunkSize))))"
  unfolding getChunkPositionFromWorldPosition_def Let_def Vector3Int.sel
  by (simp only: chunk_axis_sum [OF assms(1) assms(4) assms(5)]
      chunk_axis_sum [OF assms(2) assms(4) assms(5)]
      chunk_axis_sum [OF assms(3) assms(4) assms(5)])


lemma floor_rat_numeral:
  "\<lfloor>numeral a / numeral b :: rat\<rfloor> = numeral a div numeral b"
  by (metis floor_divide_of_int_eq of_int_numeral)

lemma toDouble_tie_2_53: "toDouble 9007199254740993 = Num 9007199254740992"
proof -
  have e: "binade 9007199254740993 (- 1022) = 53"
    by (rule binade_eq) simp_all
  have "roundHalfEven (9007199254740993 / 2) = 4503599627370496"
    by (simp add: roundHalfEven_def floor_rat_numeral Let_def)
  then have "nearestDouble 9007199254740993 = 9007199254740992"
    by (simp add: nearestDouble_def e Let_def)
  moreover have "(9007199254740992 :: rat) < 2 ^ 1024"
  proof -
    have "(9007199254740992 :: rat) = 2 ^ 53" by simp
    also have "\<dots> < 2 ^ 1024" by (rule power_strict_increasing) simp_all
    finally show ?thesis .
  qed
  ultimately show ?thesis
    by (simp add: toDouble_def Let_def del: power_numeral)
qed

lemma chunkPosition_some:
  "\<exists>cx cy cz. getChunkPositionFromWorldPosition point chunkSize worldSize =
     Inr (Vector3Int cx cy cz)"
  by (simp add: getChunkPositionFromWorldPosition_def Let_def)

lemma floor_rat_minus_numeral:
  "\<lfloor>- (numeral a / numeral b) :: rat\<rfloor> = - numeral a div numeral b"
  by (metis divide_minus_left floor_divide_of_int_eq of_int_neg_numeral of_int_numeral)

text \<open>
  C7, as stated, fails: the claim has every axis the floor of
  (coordinate + world size) / chunk size for every point. At the point
  (9007199254740991, 0, 0), with world size 2 and chunk size 1, the sum
  9007199254740993 is no double and is rounded to 9007199254740992, a tie that goes to
  the even significand: the chunk x is 9007199254740992 and the floor of the claim is
  9007199254740993.
\<close>

theorem chunk_position_rounds_counterexample:
  "getChunkPositionFromWorldPosition (Vector3Int 9007199254740991 0 0) 1 2 =
     Inr (Vector3Int (Num 9007199254740992) (Num 2) (Num 2))
   \<and> getChunkPositionFromWorldPosition (Vector3Int 9007199254740991 0 0) 1 2 \<noteq>
     Inr (Vector3Int
            (Num (of_int \<lfloor>(of_int (9007199254740991 + 2) :: rat) / of_int 1\<rfloor>))
            (Num (of_int \<lfloor>(of_int (0 + 2) :: rat) / of_int 1\<rfloor>))
            (Num (of_int \<lfloor>(of_int (0 + 2) :: rat) / of_int 1\<rfloor>)))"
proof -
  have x: "js_add (Num (of_int 9007199254740991)) (Num (of_int 2)) = Num (of_int 9007199254740992)"
    using toDouble_tie_2_53 by simp
  have y: "js_add (Num (of_int 0)) (Num (of_int 2)) = Num (of_int 2)"
    using js_add_int [of 0 2] by simp
  have dx: "js_floor (js_div (Num (of_int 9007199254740992)) (Num (of_int 1)))
              = Num (of_int 9007199254740992)"
    using toDouble_of_int [of 9007199254740992] by simp
  have dy: "js_floor (js_div (Num (of_int 2)) (Num (of_int 1))) = Num (of_int 2)"
    using toDouble_of_int [of 2] by simp
  have "getChunkPositionFromWorldPosition (Vector3Int 9007199254740991 0 0) 1 2 =
     Inr (Vector3Int (Num (of_int 9007199254740992)) (Num (of_int 2)) (Num (of_int 2)))"
    unfolding getChunkPositionFromWorldPosition_def Let_def Vector3Int.sel
    by (simp only: x y dx dy)
  then show ?thesis by simp
qed

text \<open>
  C7, amended. For safe integers (of magnitude below \<open>2^53\<close>) as coordinates, world
  size and chunk size, the chunk size above zero and every coordinate + world size a
  safe integer, each axis of the chunk position is the floor of
  (coordinate + world size) / chunk size, computed from that axis alone; with chunk size
  10 and world size 0, x = 9 lies in chunk 0 and x = 10 in chunk 1.
\<close>

theorem getChunkPositionFromWorldPosition_floor:
  assumes "0 < chunkSize" and "safeInteger chunkSize" and "safeInteger worldSize"
    and "safeInteger px" and "safeInteger py" and "safeInteger pz"
    and "safeInteger (px + worldSize)" and "safeInteger (py + worldSize)"
    and "safeInteger (pz + worldSize)"
  shows "getChunkPositionFromWorldPosition (Vector3Int px py pz) chunkSize worldSize =
           Inr (Vector3Int
                  (Num (of_int \<lfloor>(of_int (px + worldSize) :: rat) / of_int chunkSize\<rfloor>))
                  (Num (of_int \<lfloor>(of_int (py + worldSize) :: rat) / of_int chunkSize\<rfloor>))
                  (Num (of_int \<lfloor>(of_int (pz + worldSize) :: rat) / of_int chunkSize\<rfloor>)))
         \<and> (\<exists>cy cz. getChunkPositionFromWorldPosition (Vector3Int 9 py pz) 10 0 =
               Inr (Vector3Int (Num 0) cy cz))
         \<and> (\<exists>cy cz. getChunkPositionFromWorldPosition (Vector3Int 10 py pz) 10 0 =
               Inr (Vector3Int (Num 1) cy cz))"
proof -
  from assms have c: "chunkSize \<noteq> 0" by simp
  have general: "getChunkPositionFromWorldPosition (Vector3Int px py pz) chunkSize worldSize =
           Inr (Vector3Int
                  (Num (of_int \<lfloor>(of_int (px + worldSize) :: rat) / of_int chunkSize\<rfloor>))
                  (Num (of_int \<lfloor>(of_int (py + worldSize) :: rat) / of_int chunkSize\<rfloor>))
                  (Num (of_int \<lfloor>(of_int (pz + worldSize) :: rat) / of_int chunkSize\<rfloor>)))"
    by (simp only: chunkPosition_safe [OF assms(7) assms(8) assms(9) c assms(2)]
        floor_divide_of_int_eq)
  have py0: "safeInteger (py + 0)" and pz0: "safeInteger (pz + 0)"
    using assms(5) assms(6) by simp_all
  have "getChunkPositionFromWorldPosition (Vector3Int 9 py pz) 10 0 =
          Inr (Vector3Int (Num 0) (Num (of_int ((py + 0) div 10))) (Num (of_int ((pz + 0) div 10))))"
    using chunkPosition_safe [of 9 0 py pz 10] py0 pz0 by (simp add: safeInteger_def)
  then have nine: "\<exists>cy cz. getChunkPositionFromWorldPosition (Vector3Int 9 py pz) 10 0 =
               Inr (Vector3Int (Num 0) cy cz)" by blast
  have "getChunkPositionFromWorldPosition (Vector3Int 10 py pz) 10 0 =
          Inr (Vector3Int (Num 1) (Num (of_int ((py + 0) div 10))) (Num (of_int ((pz + 0) div 10))))"
    using chunkPosition_safe [of 10 0 py pz 10] py0 pz0 by (simp add: safeInteger_def)
  then have ten: "\<exists>cy cz. getChunkPositionFromWorldPosition (Vector3Int 10 py pz) 10 0 =
               Inr (Vector3Int (Num 1) cy cz)" by blast
  from general nine ten show ?thesis by (intro conjI)
qed

text \<open>C7, amended, at chunk size 16: the point (15, -3, 40) lies in the chunk (0, -1, 2).\<close>

theorem getChunkPositionFromWorldPosition_floor_witness:
  "(0::int) < 16 \<and> safeInteger 16 \<and> safeInteger 0 \<and> safeInteger 15 \<and> safeInteger (- 3)
   \<and> safeInteger 40 \<and> safeInteger (15 + 0) \<and> safeInteger (- 3 + 0) \<and> safeInteger (40 + 0)
   \<and> getChunkPositionFromWorldPosition (Vector3Int 15 (- 3) 40) 16 0 =
     Inr (Vector3Int (Num 0) (Num (- 1)) (Num 2))"
  using getChunkPositionFromWorldPosition_floor [of 16 0 15 "- 3" 40]
  by (simp add: safeInteger_def floor_rat_numeral floor_rat_minus_numeral)

section \<open>Boundary proximity of integer points\<close>

text \<open>
  The decimal of an integer is zero, and \<open>NaN\<close> when the sum has overflowed to an
  infinity. For safe sums the flags are therefore \<open>0 < threshold\<close> for the low
  boundaries and \<open>1 < threshold\<close> for the high ones, the same on every axis and wherever
  the point lies in its chunk.
\<close>

lemma flags_threshold_zero:
  assumes "d = Num 0 \<or> d = NaN"
  shows "\<not> js_lt d (Num 0)" and "\<not> js_lt (js_sub (Num 1) d) (Num 0)"
  using assms by (auto simp: js_sub_def toDouble_1)

lemma edgeCases_safe:
  assumes "safeInteger (px + worldSize)" and "safeInteger (py + worldSize)"
    and "safeInteger (pz + worldSize)"
    and pos: "getChunkPositionFromWorldPosition (Vector3Int px py pz) chunkSize worldSize =
            Inr (Vector3Int cx cy cz)"
  shows "getChunkPositionsFromPointEdgeCases (Vector3Int px py pz) worldSize chunkSize t =
     Inr (if 1 < t then
            [Vector3Int (js_sub cx (Num 1)) cy cz,
             Vector3Int (js_sub cx (Num 1)) (js_add cy (Num 1)) cz,
             Vector3Int cx (js_sub cy (Num 1)) cz,
             Vector3Int cx cy (js_sub cz (Num 1)),
             Vector3Int cx (js_add cy (Num 1)) (js_sub cz (Num 1)),
             Vector3Int (js_add cx (Num 1)) cy (js_add cz (Num 1)),
             Vector3Int (js_add cx (Num 1)) (js_add cy (Num 1)) (js_add cz (Num 1)),
             Vector3Int (js_sub cx (Num 1)) cy (js_add cz (Num 1)),
             Vector3Int (js_sub cx (Num 1)) (js_add cy (Num 1)) (js_add cz (Num 1)),
             Vector3Int (js_add cx (Num 1)) cy (js_sub cz (Num 1)),
             Vector3Int (js_add cx (Num 1)) (js_add cy (Num 1)) (js_sub cz (Num 1)),
             Vector3Int (js_sub cx (Num 1)) cy (js_sub cz (Num 1)),
             Vector3Int (js_sub cx (Num 1)) (js_add cy (Num 1)) (js_sub cz (Num 1))]
          else if 0 < t then
            [Vector3Int (js_sub cx (Num 1)) cy cz,
             Vector3Int (js_sub cx (Num 1)) (js_sub cy (Num 1)) cz,
             Vector3Int cx (js_sub cy (Num 1)) cz,
             Vector3Int cx cy (js_sub cz (Num 1)),
             Vector3Int cx (js_sub cy (Num 1)) (js_sub cz (Num 1)),
             Vector3Int (js_sub cx (Num 1)) cy (js_sub cz (Num 1)),
             Vector3Int (js_sub cx (Num 1)) (js_sub cy (Num 1)) (js_sub cz (Num 1))]
          else [])"
proof -
  have s: "js_add (Num (of_int a)) (Num (of_int worldSize)) = Num (of_int (a + worldSize))"
    if "safeInteger (a + worldSize)" for a
    using that by (intro js_add_int) (simp add: safeInteger_def)
  show ?thesis
    unfolding getChunkPositionsFromPointEdgeCases_def pos
    apply (simp only: sum.case Let_def Vector3Int.sel s [OF assms(1)] s [OF assms(2)]
        s [OF assms(3)] decimal_of_int one_minus_decimal js_lt.simps)
    apply (simp del: js_add.simps)
    done
qed

text \<open>
  C1. The scenario of the claim: chunk size 16, world size 0, the point (15, 15, 15),
  threshold 0.2. The claim expects every axis near its high boundary (fraction 15/16)
  and the seven neighbours (1,1,1), (1,0,0), (0,1,0), (0,0,1), (1,1,0), (1,0,1),
  (0,1,1). The code takes the decimal of 15, which is 0, flags every axis near its low
  boundary, and returns the seven neighbours on the other side; (1,1,1) is not among
  them.
\<close>

theorem edgeCases_scenario_low_side:
  "getChunkPositionsFromPointEdgeCases (Vector3Int 15 15 15) 0 16 (1 / 5) =
     Inr [Vector3Int (Num (- 1)) (Num 0) (Num 0),
          Vector3Int (Num (- 1)) (Num (- 1)) (Num 0),
          Vector3Int (Num 0) (Num (- 1)) (Num 0),
          Vector3Int (Num 0) (Num 0) (Num (- 1)),
          Vector3Int (Num 0) (Num (- 1)) (Num (- 1)),
          Vector3Int (Num (- 1)) (Num 0) (Num (- 1)),
          Vector3Int (Num (- 1)) (Num (- 1)) (Num (- 1))]
   \<and> getChunkPositionsFromPointEdgeCases (Vector3Int 15 15 15) 0 16 (1 / 5) \<noteq>
     Inr [Vector3Int (Num 1) (Num 0) (Num 0),
          Vector3Int (Num 1) (Num 1) (Num 0),
          Vector3Int (Num 0) (Num 1) (Num 0),
          Vector3Int (Num 0) (Num 0) (Num 1),
          Vector3Int (Num 0) (Num 1) (Num 1),
          Vector3Int (Num 1) (Num 0) (Num 1),
          Vector3Int (Num 1) (Num 1) (Num 1)]"
proof -
  have safe: "safeInteger (15 + 0)" by (simp add: safeInteger_def)
  have pos: "getChunkPositionFromWorldPosition (Vector3Int 15 15 15) 16 0 =
               Inr (Vector3Int (Num 0) (Num 0) (Num 0))"
    using chunkPosition_safe [of 15 0 15 15 16] by (simp add: safeInteger_def)
  show ?thesis
    by (simp add: edgeCases_safe [OF safe safe safe pos] js_sub_def toDouble_small)
qed

text \<open>
  C9. For every point, every world size and every chunk size above zero, a threshold
  of 0 flags no axis and the result is the empty list.
\<close>

theorem edgeCases_threshold_zero_empty:
  assumes "0 < chunkSize"
  shows "getChunkPositionsFromPointEdgeCases point worldSize chunkSize 0 = Inr []"
proof -
  obtain cx cy cz where
    pos: "getChunkPositionFromWorldPosition point chunkSize worldSize = Inr (Vector3Int cx cy cz)"
    using chunkPosition_some by blast
  note d = decimal_cases [of _ worldSize]
  show ?thesis
    unfolding getChunkPositionsFromPointEdgeCases_def pos
    by (simp only: sum.case Let_def flags_threshold_zero [OF d] if_False append_Nil simp_thms)
qed

text \<open>C9 at chunk size 16, world size 3 and the point (15, 0, -20).\<close>

theorem edgeCases_threshold_zero_empty_witness:
  "(0::int) < 16 \<and> getChunkPositionsFromPointEdgeCases (Vector3Int 15 0 (- 20)) 3 16 0 = Inr []"
  using edgeCases_threshold_zero_empty [of 16 "Vector3Int 15 0 (- 20)" 3] by simp




section \<open>The neighbours of a chunk: what the list holds\<close>

lemma getAdjacentChunkPositions_length: "length (getAdjacentChunkPositions c) = 26"
  by (simp add: getAdjacentChunkPositions_def Let_def)

lemma getAdjacentChunkPositions_distinct:
  "safeInteger (chunkX c) \<Longrightarrow> safeInteger (chunkZ c) \<Longrightarrow>
   distinct (getAdjacentChunkPositions c)"
  by (simp add: getAdjacentChunkPositions_def Let_def)

text \<open>
  C2. The claim: the 26 coordinates are the chunk's own coordinate shifted by every
  non-zero offset of \<open>{-1, 0, 1}\<close> on each axis, none is the chunk's own, and the
  relation is symmetric. The list is built from \<open>x\<close> in place of \<open>y\<close>: for the
  chunk (0, 1, 0) it holds (0, 1, 0) itself; for the chunk (0, 5, 0) it holds
  (1, 1, 0), four chunks away, and misses the neighbour (0, 6, 0); and (1, 1, 0) is in
  the list of (0, 5, 0) while (0, 5, 0) is not in the list of (1, 1, 0).
\<close>

theorem getAdjacentChunkPositions_uses_x_for_y:
  "Vector3Int 0 1 0 \<in> set (getAdjacentChunkPositions (newNeuralChunk 0 1 0))
   \<and> Vector3Int 1 1 0 \<in> set (getAdjacentChunkPositions (newNeuralChunk 0 5 0))
   \<and> \<not> isNeighbourOf (Vector3Int 1 1 0) (newNeuralChunk 0 5 0)
   \<and> isNeighbourOf (Vector3Int 0 6 0) (newNeuralChunk 0 5 0)
   \<and> Vector3Int 0 6 0 \<notin> set (getAdjacentChunkPositions (newNeuralChunk 0 5 0))
   \<and> Vector3Int 0 5 0 \<notin> set (getAdjacentChunkPositions (newNeuralChunk 1 1 0))"
  by (simp add: getAdjacentChunkPositions_def Let_def newNeuralChunk_def isNeighbourOf_def)

text \<open>
  C10. The list of neighbours does not depend on the chunk's \<open>y\<close>: two chunks with
  the same \<open>x\<close> and the same \<open>z\<close> have the same list of 26 coordinates, whatever
  their \<open>y\<close>, and replacing the \<open>y\<close> of a chunk leaves its list as it is.
\<close>

theorem getAdjacentChunkPositions_ignores_y:
  assumes "chunkX c1 = chunkX c2" and "chunkZ c1 = chunkZ c2"
  shows "getAdjacentChunkPositions c1 = getAdjacentChunkPositions c2
         \<and> length (getAdjacentChunkPositions c1) = 26
         \<and> getAdjacentChunkPositions (c1\<lparr>chunkY := y'\<rparr>) = getAdjacentChunkPositions c1"
  using assms by (simp add: getAdjacentChunkPositions_def Let_def)

text \<open>C10 for the chunks (2, 5, 3) and (2, -40, 3).\<close>

theorem getAdjacentChunkPositions_ignores_y_witness:
  "chunkX (newNeuralChunk 2 5 3) = chunkX (newNeuralChunk 2 (- 40) 3)
   \<and> chunkZ (newNeuralChunk 2 5 3) = chunkZ (newNeuralChunk 2 (- 40) 3)
   \<and> getAdjacentChunkPositions (newNeuralChunk 2 5 3) =
       getAdjacentChunkPositions (newNeuralChunk 2 (- 40) 3)"
  using getAdjacentChunkPositions_ignores_y [of "newNeuralChunk 2 5 3" "newNeuralChunk 2 (- 40) 3"]
  by (simp add: newNeuralChunk_def)

section \<open>Adding and finding neurons: the index\<close>

lemma addNeuron_pushes: "rawNeurons (snd (addNeuron n c)) = rawNeurons c @ [n]"
  by (simp add: addNeuron_def Let_def)

lemma getNeuron_addNeuron:
  "fst (getNeuronFromPosition p (snd (addNeuron n c))) =
     (if p = position n \<and> fst (getNeuronFromPosition p c) = None then Some n
      else fst (getNeuronFromPosition p c))"
  by (cases p; cases "position n")
     (auto simp: getNeuronFromPosition_def addNeuron_def Let_def split: option.splits)

lemma addNeuron_throws_iff:
  "isl (fst (addNeuron n c)) \<longleftrightarrow> fst (getNeuronFromPosition (position n) c) \<noteq> None"
  by (auto simp: getNeuronFromPosition_def addNeuron_def Let_def split: option.splits)

lemma lastAt_Nil: "lastAt p [] = None"
  by (simp add: lastAt_def)

lemma lastAt_Cons:
  "lastAt p (n # ns) =
     (case lastAt p ns of
        None \<Rightarrow> if position n = p then Some n else None
      | Some m \<Rightarrow> Some m)"
  by (simp add: lastAt_def split: list.splits)

text \<open>
  After any calls, a position finds the last neuron added there by a call that
  returned, and what it found before the calls when there is none.
\<close>

lemma getNeuron_addNeurons:
  "fst (getNeuronFromPosition p (addNeurons ns c)) =
     (case lastAt p (addedNeurons ns c) of
        None \<Rightarrow> fst (getNeuronFromPosition p c)
      | Some m \<Rightarrow> Some m)"
proof (induction ns arbitrary: c)
  case Nil
  show ?case by (simp add: lastAt_Nil)
next
  case (Cons n ns)
  show ?case
  proof (cases "fst (addNeuron n c)")
    case (Inl e)
    then have "fst (getNeuronFromPosition (position n) c) \<noteq> None"
      using addNeuron_throws_iff [of n c] by simp
    with Inl show ?thesis
      by (auto simp: Cons.IH getNeuron_addNeuron split: option.splits)
  next
    case (Inr u)
    then have "fst (getNeuronFromPosition (position n) c) = None"
      using addNeuron_throws_iff [of n c] by simp
    with Inr show ?thesis
      by (auto simp: Cons.IH getNeuron_addNeuron lastAt_Cons split: option.splits)
  qed
qed

lemma getNeuron_new: "fst (getNeuronFromPosition p (newNeuralChunk x y z)) = None"
  by (simp add: getNeuronFromPosition_def newNeuralChunk_def)

lemma getNeuron_pure: "snd (getNeuronFromPosition p c) = c"
  by (simp add: getNeuronFromPosition_def split: option.splits)

text \<open>
  What the two parts of a chunk hold after any calls on a new chunk: the array every
  neuron that was passed in, the index the neurons whose call returned.
\<close>

lemma rawNeurons_addNeurons: "rawNeurons (addNeurons ns c) = rawNeurons c @ ns"
  by (induction ns arbitrary: c) (simp_all add: addNeuron_pushes)

lemma getNeuron_addNeurons_stays:
  "fst (getNeuronFromPosition p c) = Some m \<Longrightarrow>
   fst (getNeuronFromPosition p (addNeurons ns c)) = Some m"
  by (induction ns arbitrary: c) (simp_all add: getNeuron_addNeuron)

lemma addedNeurons_found:
  "n \<in> set (addedNeurons ns c) \<Longrightarrow>
   fst (getNeuronFromPosition (position n) (addNeurons ns c)) = Some n"
proof (induction ns arbitrary: c)
  case Nil
  then show ?case by simp
next
  case (Cons m ns)
  show ?case
  proof (cases "fst (addNeuron m c)")
    case (Inl e)
    with Cons show ?thesis by simp
  next
    case (Inr u)
    then have free: "fst (getNeuronFromPosition (position m) c) = None"
      using addNeuron_throws_iff [of m c] by simp
    from Cons.prems Inr have "n = m \<or> n \<in> set (addedNeurons ns (snd (addNeuron m c)))"
      by simp
    then show ?thesis
    proof
      assume "n = m"
      with free show ?thesis
        by (simp add: getNeuron_addNeurons_stays getNeuron_addNeuron)
    next
      assume "n \<in> set (addedNeurons ns (snd (addNeuron m c)))"
      then show ?thesis by (simp add: Cons.IH)
    qed
  qed
qed

lemma lastAt_in_set: "lastAt p ns = Some n \<Longrightarrow> n \<in> set ns"
proof -
  assume h: "lastAt p ns = Some n"
  then obtain m ms where f: "filter (\<lambda>n. position n = p) ns = m # ms" and n: "n = last (m # ms)"
    by (auto simp: lastAt_def split: list.splits)
  have "last (m # ms) \<in> set (m # ms)" by (rule last_in_set) simp
  with f n have "n \<in> set (filter (\<lambda>n. position n = p) ns)" by simp
  then show ?thesis by simp
qed

lemma indexedNeurons_addNeurons:
  "indexedNeurons (addNeurons ns (newNeuralChunk x y z)) =
     set (addedNeurons ns (newNeuralChunk x y z))"
proof (intro set_eqI iffI)
  fix n
  assume "n \<in> indexedNeurons (addNeurons ns (newNeuralChunk x y z))"
  then obtain p where "fst (getNeuronFromPosition p (addNeurons ns (newNeuralChunk x y z))) = Some n"
    by (auto simp: indexedNeurons_def)
  then have "lastAt p (addedNeurons ns (newNeuralChunk x y z)) = Some n"
    by (simp add: getNeuron_addNeurons getNeuron_new split: option.splits)
  then show "n \<in> set (addedNeurons ns (newNeuralChunk x y z))"
    by (rule lastAt_in_set)
next
  fix n
  assume "n \<in> set (addedNeurons ns (newNeuralChunk x y z))"
  then have "fst (getNeuronFromPosition (position n) (addNeurons ns (newNeuralChunk x y z))) = Some n"
    by (rule addedNeurons_found)
  then show "n \<in> indexedNeurons (addNeurons ns (newNeuralChunk x y z))"
    by (auto simp: indexedNeurons_def)
qed

text \<open>
  C8. \<open>getNeuronFromPosition\<close> is a lookup. In a chunk built from a new one by any
  calls of \<open>addNeuron\<close>, a position finds the neuron most recently added there by a
  call that returned, and \<open>undefined\<close> when no call has added one there; on every
  chunk the lookup returns a value (it does not throw) and leaves the chunk as it was.
\<close>

theorem getNeuronFromPosition_lookup:
  "fst (getNeuronFromPosition p (addNeurons ns (newNeuralChunk x y z))) =
     lastAt p (addedNeurons ns (newNeuralChunk x y z))
   \<and> snd (getNeuronFromPosition p c) = c"
  by (simp add: getNeuron_addNeurons getNeuron_new getNeuron_pure split: option.splits)

text \<open>
  C3. The claim: a call of \<open>addNeuron\<close> at an occupied position fails with the
  collision error and leaves the chunk as it was, the new neuron in neither the index
  nor the array. Two neurons at (1, 2, 3) added to a new chunk: the second call
  throws the collision at (1, 2, 3) and the index still holds the first neuron, but
  the array, which held the first neuron alone, now holds both: the chunk has changed.
\<close>

theorem addNeuron_collision_keeps_push:
  "fst (addNeuron \<lparr>position = Vector3Int 1 2 3, data = ''b''\<rparr>
         (snd (addNeuron \<lparr>position = Vector3Int 1 2 3, data = ''a''\<rparr> (newNeuralChunk 0 0 0))))
     = Inl (NeuronCollision 1 2 3)
   \<and> fst (getNeuronFromPosition (Vector3Int 1 2 3)
         (snd (addNeuron \<lparr>position = Vector3Int 1 2 3, data = ''b''\<rparr>
           (snd (addNeuron \<lparr>position = Vector3Int 1 2 3, data = ''a''\<rparr> (newNeuralChunk 0 0 0))))))
     = Some \<lparr>position = Vector3Int 1 2 3, data = ''a''\<rparr>
   \<and> rawNeurons (snd (addNeuron \<lparr>position = Vector3Int 1 2 3, data = ''a''\<rparr> (newNeuralChunk 0 0 0)))
     = [\<lparr>position = Vector3Int 1 2 3, data = ''a''\<rparr>]
   \<and> rawNeurons (snd (addNeuron \<lparr>position = Vector3Int 1 2 3, data = ''b''\<rparr>
         (snd (addNeuron \<lparr>position = Vector3Int 1 2 3, data = ''a''\<rparr> (newNeuralChunk 0 0 0)))))
     = [\<lparr>position = Vector3Int 1 2 3, data = ''a''\<rparr>,
        \<lparr>position = Vector3Int 1 2 3, data = ''b''\<rparr>]
   \<and> snd (addNeuron \<lparr>position = Vector3Int 1 2 3, data = ''b''\<rparr>
         (snd (addNeuron \<lparr>position = Vector3Int 1 2 3, data = ''a''\<rparr> (newNeuralChunk 0 0 0))))
     \<noteq> snd (addNeuron \<lparr>position = Vector3Int 1 2 3, data = ''a''\<rparr> (newNeuralChunk 0 0 0))"
proof -
  let ?u1 = "\<lparr>position = Vector3Int 1 2 3, data = ''a''\<rparr>"
  let ?u2 = "\<lparr>position = Vector3Int 1 2 3, data = ''b''\<rparr>"
  let ?c1 = "snd (addNeuron ?u1 (newNeuralChunk 0 0 0))"
  let ?c2 = "snd (addNeuron ?u2 ?c1)"
  have thrown: "fst (addNeuron ?u2 ?c1) = Inl (NeuronCollision 1 2 3)"
    by (simp add: addNeuron_def Let_def newNeuralChunk_def)
  have found: "fst (getNeuronFromPosition (Vector3Int 1 2 3) ?c2) = Some ?u1"
    by (simp add: getNeuron_addNeuron getNeuron_new)
  have raw1: "rawNeurons ?c1 = [?u1]"
    by (simp add: addNeuron_pushes newNeuralChunk_def)
  have raw2: "rawNeurons ?c2 = [?u1, ?u2]"
    by (simp add: addNeuron_pushes newNeuralChunk_def)
  have "rawNeurons ?c2 \<noteq> rawNeurons ?c1"
    unfolding raw1 raw2 by simp
  then have changed: "?c2 \<noteq> ?c1"
    by (rule contrapos_nn) (erule arg_cong)
  from thrown found raw1 raw2 changed show ?thesis
    by (intro conjI)
qed

text \<open>
  C4. The claim: after any calls of \<open>addNeuron\<close> on a new chunk, failing ones
  included, the index and the array hold the same neurons and no two neurons of the
  chunk share a position. After the two calls of C3 the array holds the second neuron,
  which no position of the index finds, and the two neurons of the array have the
  same position.
\<close>

theorem index_and_array_disagree_after_collision:
  "set (rawNeurons (addNeurons [\<lparr>position = Vector3Int 1 2 3, data = ''a''\<rparr>,
                                \<lparr>position = Vector3Int 1 2 3, data = ''b''\<rparr>]
                               (newNeuralChunk 0 0 0)))
     \<noteq> indexedNeurons (addNeurons [\<lparr>position = Vector3Int 1 2 3, data = ''a''\<rparr>,
                                    \<lparr>position = Vector3Int 1 2 3, data = ''b''\<rparr>]
                                   (newNeuralChunk 0 0 0))
   \<and> \<not> distinct (map position
         (rawNeurons (addNeurons [\<lparr>position = Vector3Int 1 2 3, data = ''a''\<rparr>,
                                  \<lparr>position = Vector3Int 1 2 3, data = ''b''\<rparr>]
                                 (newNeuralChunk 0 0 0))))"
proof -
  let ?u1 = "\<lparr>position = Vector3Int 1 2 3, data = ''a''\<rparr>"
  let ?u2 = "\<lparr>position = Vector3Int 1 2 3, data = ''b''\<rparr>"
  let ?c = "addNeurons [?u1, ?u2] (newNeuralChunk 0 0 0)"
  have raw: "rawNeurons ?c = [?u1, ?u2]"
    by (simp add: addNeuron_pushes newNeuralChunk_def)
  have idx: "fst (getNeuronFromPosition pos ?c) \<noteq> Some ?u2" for pos
    by (simp add: getNeuron_addNeuron getNeuron_new)
  have "?u2 \<in> set (rawNeurons ?c)"
    unfolding raw by simp
  moreover have "?u2 \<notin> indexedNeurons ?c"
    unfolding indexedNeurons_def using idx by blast
  ultimately have "set (rawNeurons ?c) \<noteq> indexedNeurons ?c"
    by blast
  moreover have "\<not> distinct (map position (rawNeurons ?c))"
    unfolding raw by simp
  ultimately show ?thesis
    by blast
qed

section \<open>Empty neurons: the loop that does not run\<close>

text \<open>
  The index is never below the number the array turns into (0 or \<open>NaN\<close>), so the
  body of the loop is never entered and the answer is \<open>false\<close> for every chunk.
\<close>

lemma hasEmptyNeurons_False: "hasEmptyNeurons c = Inr False"
  by (simp add: hasEmptyNeurons_def arrayToNumber_def)

text \<open>
  C5. The claim: \<open>hasEmptyNeurons\<close> is true exactly when some neuron of the array has
  an empty payload, and so true as soon as one such neuron has been added. A new chunk
  to which one neuron with the payload \<open>""\<close> has been added holds an empty neuron, and
  \<open>hasEmptyNeurons\<close> returns \<open>false\<close> for it.
\<close>

theorem hasEmptyNeurons_misses_empty_neuron:
  "hasEmptyNeurons
     (snd (addNeuron \<lparr>position = Vector3Int 0 0 0, data = []\<rparr> (newNeuralChunk 0 0 0)))
     = Inr False
   \<and> someNeuronEmpty
     (snd (addNeuron \<lparr>position = Vector3Int 0 0 0, data = []\<rparr> (newNeuralChunk 0 0 0)))
   \<and> fst (addNeuron \<lparr>position = Vector3Int 0 0 0, data = []\<rparr> (newNeuralChunk 0 0 0))
     = Inr ()"
  by (simp add: hasEmptyNeurons_False someNeuronEmpty_def addNeuron_def Let_def
      newNeuralChunk_def)

end
